theory Spec2Isabelle
  imports Complex_Main
begin

section \<open>Python primitives used by the CPU usage plugin\<close>

text \<open>
  The plugin (\<^verbatim>\<open>landscape/monitor/cpuusage.py\<close>) works on Python strings, lists of strings
  and unbounded integers. Exceptions are values of \<open>error\<close>; a computation that may raise
  returns \<open>error + 'a\<close> with \<open>Inl\<close> for the exception. \<^verbatim>\<open>IOError\<close> does not appear in
  \<open>error\<close>: the only place that can raise it is inside the \<^verbatim>\<open>try\<close> block, which catches it.
\<close>

datatype error = ValueError | IndexError

definition newline :: char where
  "newline = CHR 0x0A"

text \<open>\<^verbatim>\<open>xs[i]\<close> for a non-negative index: out of range raises \<^verbatim>\<open>IndexError\<close>.\<close>

definition py_index :: "'a list \<Rightarrow> nat \<Rightarrow> error + 'a" where
  "py_index xs i = (if i < length xs then Inr (xs ! i) else Inl IndexError)"

text \<open>\<^verbatim>\<open>s.replace("\n", "")\<close>: every newline character is removed.\<close>

definition replace_newline :: "string \<Rightarrow> string" where
  "replace_newline s = filter (\<lambda>c. c \<noteq> newline) s"

text \<open>
  \<^verbatim>\<open>s.split(" ")\<close> with an explicit separator: the string is cut at every single
  separator character, so two adjacent separators give an empty token, and the empty
  string gives one empty token.
\<close>

fun split_on :: "char \<Rightarrow> string \<Rightarrow> string list" where
  "split_on sep [] = [[]]"
| "split_on sep (c # cs) =
     (if c = sep then [] # split_on sep cs
      else (case split_on sep cs of
              [] \<Rightarrow> [[c]]
            | w # ws \<Rightarrow> (c # w) # ws))"

text \<open>
  \<^verbatim>\<open>int(s)\<close> on a string, base 10: surrounding whitespace is stripped, one sign is
  accepted, and what remains must be a non-empty run of decimal digits; anything else
  raises \<^verbatim>\<open>ValueError\<close>. (Python 3 accepts in addition an underscore between two digits
  and digits outside ASCII; no statement below depends on a string of that kind.)
\<close>

definition is_space :: "char \<Rightarrow> bool" where
  "is_space c = (c \<in> set [CHR '' '', CHR 0x09, CHR 0x0A, CHR 0x0B, CHR 0x0C, CHR 0x0D])"

definition strip :: "string \<Rightarrow> string" where
  "strip s = rev (dropWhile is_space (rev (dropWhile is_space s)))"

definition is_digit :: "char \<Rightarrow> bool" where
  "is_digit c = (c \<in> set ''0123456789'')"

definition digit_val :: "char \<Rightarrow> int" where
  "digit_val c = of_char c - 48"

definition digits_val :: "string \<Rightarrow> int" where
  "digits_val ds = foldl (\<lambda>acc c. 10 * acc + digit_val c) 0 ds"

definition unsigned_int :: "string \<Rightarrow> error + int" where
  "unsigned_int ds =
     (if ds \<noteq> [] \<and> list_all is_digit ds then Inr (digits_val ds) else Inl ValueError)"

definition py_int :: "string \<Rightarrow> error + int" where
  "py_int s =
     (case strip s of
        [] \<Rightarrow> Inl ValueError
      | c # cs \<Rightarrow>
          if c = CHR ''-'' then map_sum id uminus (unsigned_int cs)
          else if c = CHR ''+'' then unsigned_int cs
          else unsigned_int (c # cs))"

section \<open>Reading the statistics file\<close>

text \<open>
  \<^verbatim>\<open>f.readline()\<close>: the text up to and including the first newline, or all of it when
  there is none.
\<close>

fun readline :: "string \<Rightarrow> string" where
  "readline [] = []"
| "readline (c # cs) = (if c = newline then [c] else c # readline cs)"

text \<open>
  Lines 93 to 96: the newline is removed, the line is split at single spaces, and the
  first two tokens (the \<^verbatim>\<open>cpu\<close> header and the empty token after it) are dropped.
  The fields stay strings; \<^verbatim>\<open>int\<close> is applied when the deltas are computed.
\<close>

definition stat_fields :: "string \<Rightarrow> string list" where
  "stat_fields stat = drop 2 (split_on CHR '' '' (replace_newline stat))"

section \<open>The utilization computation\<close>

text \<open>
  The loop of lines 103 to 111 over \<^verbatim>\<open>range(len(fields))\<close>, as a recursion on the index.
  The result is the triple \<^verbatim>\<open>(reboot, delta_fields, used_delta)\<close> at the end of the loop, or
  the exception raised inside it. The operands of the subtraction are evaluated left to
  right.
\<close>

function scan_fields ::
  "string list \<Rightarrow> string list \<Rightarrow> nat \<Rightarrow> int list \<Rightarrow> int \<Rightarrow> error + (bool \<times> int list \<times> int)"
where
  "scan_fields fields previous_fields i delta_fields used_delta =
     (if i < length fields then
        (case py_int (fields ! i) of
           Inl e \<Rightarrow> Inl e
         | Inr new \<Rightarrow>
            (case py_index previous_fields i of
               Inl e \<Rightarrow> Inl e
             | Inr p \<Rightarrow>
                (case py_int p of
                   Inl e \<Rightarrow> Inl e
                 | Inr old \<Rightarrow>
                    (let delta = new - old in
                     if delta < 0 then Inr (True, delta_fields, used_delta)
                     else
                       (let delta_fields' = delta_fields @ [delta] in
                        if i \<noteq> 3 then
                          (case py_index delta_fields' i of
                             Inl e \<Rightarrow> Inl e
                           | Inr d \<Rightarrow>
                               scan_fields fields previous_fields (i + 1) delta_fields'
                                 (used_delta + d))
                        else scan_fields fields previous_fields (i + 1) delta_fields'
                               used_delta)))))
      else Inr (False, delta_fields, used_delta))"
  by pat_completeness auto
termination
  by (relation "measure (\<lambda>(fields, previous_fields, i, delta_fields, used_delta).
        length fields - i)") auto

text \<open>
  Lines 98 to 117: the ratio computed from the new fields and the persisted ones, absent
  (\<open>None\<close>) on the first run, after a reboot and for a zero divisor. The division
  \<^verbatim>\<open>used_delta / float(divisor)\<close> is taken over the reals: floating point is not part of the
  model, neither the rounding of the quotient to a double nor the limited range of
  \<^verbatim>\<open>float\<close> (integers of more than 300 digits, which no counter of \<^verbatim>\<open>/proc/stat\<close> reaches).
\<close>

definition compute_result :: "string list \<Rightarrow> string list option \<Rightarrow> error + real option" where
  "compute_result fields persisted =
     (case persisted of
        None \<Rightarrow> Inr None
      | Some previous_fields \<Rightarrow>
          (case scan_fields fields previous_fields 0 [] 0 of
             Inl e \<Rightarrow> Inl e
           | Inr (reboot, delta_fields, used_delta) \<Rightarrow>
               if \<not> reboot then
                 (case py_index delta_fields 3 of
                    Inl e \<Rightarrow> Inl e
                  | Inr idle_delta \<Rightarrow>
                      (let divisor = idle_delta + used_delta in
                       if \<not> divisor = 0
                       then Inr (Some (real_of_int used_delta / real_of_int divisor))
                       else Inr None))
               else Inr None))"

text \<open>Lines 122 and 123: a result outside \<open>[0, 1]\<close> is replaced by \<open>None\<close>.\<close>

definition sanity_guard :: "real option \<Rightarrow> real option" where
  "sanity_guard result =
     (case result of
        None \<Rightarrow> None
      | Some r \<Rightarrow> if r < 0 \<or> r > 1 then None else Some r)"

text \<open>
  \<^verbatim>\<open>_get_cpu_usage\<close>. The first argument is what opening and reading the file gives:
  \<open>None\<close> when \<^verbatim>\<open>IOError\<close> is raised inside the \<^verbatim>\<open>try\<close> block, the contents otherwise. The
  second is the value stored under \<^verbatim>\<open>LAST_MESURE_KEY\<close> (\<open>None\<close> when the key is not set).
  The function returns its result, or the exception it raises, and the value stored
  under the key afterwards: \<^verbatim>\<open>self._persist.set\<close> is the last statement before
  \<^verbatim>\<open>return result\<close>, so an exception leaves the stored value as it was.
\<close>

definition get_cpu_usage ::
  "string option \<Rightarrow> string list option \<Rightarrow> (error + real option) \<times> string list option"
where
  "get_cpu_usage stat_file persisted =
     (case stat_file of
        None \<Rightarrow> (Inr None, persisted)
      | Some content \<Rightarrow>
          (let fields = stat_fields (readline content) in
           case compute_result fields persisted of
             Inl e \<Rightarrow> (Inl e, persisted)
           | Inr result \<Rightarrow> (Inr (sanity_guard result), Some fields)))"

section \<open>The plugin: ticks and messages\<close>

text \<open>
  The state of a \<^verbatim>\<open>CPUUsage\<close> object that \<^verbatim>\<open>run\<close> and \<^verbatim>\<open>create_message\<close> touch: the two keys of
  the persistent store (the last measure, and the data of the accumulator under
  \<^verbatim>\<open>ACCUMULATOR_KEY\<close>), the coverage monitor, and the list of points waiting to be sent.
  \<^verbatim>\<open>Accumulator\<close> and \<^verbatim>\<open>CoverageMonitor\<close> are imported from other modules; their data are type
  parameters and their operations are parameters of \<open>run\<close>.
\<close>

record ('a, 'm, 'p) plugin =
  last_mesure :: "string list option"
  accumulator :: 'a
  monitor :: 'm
  cpu_usage_points :: "'p list"

record 'p message =
  msg_type :: string
  cpu_usages :: "'p list"

text \<open>\<^verbatim>\<open>create_message\<close>: the list of points is handed out and replaced by a fresh empty list.\<close>

definition create_message :: "('a, 'm, 'p) plugin \<Rightarrow> 'p message \<times> ('a, 'm, 'p) plugin" where
  "create_message self =
     (let cpu_points = cpu_usage_points self in
      (\<lparr>msg_type = ''cpu-usage'', cpu_usages = cpu_points\<rparr>,
       self\<lparr>cpu_usage_points := []\<rparr>))"

text \<open>\<^verbatim>\<open>int(x)\<close> on a float truncates towards zero.\<close>

definition int_of_float :: "real \<Rightarrow> int" where
  "int_of_float x = (if 0 \<le> x then \<lfloor>x\<rfloor> else \<lceil>x\<rceil>)"

text \<open>
  \<^verbatim>\<open>run\<close>, one tick. \<open>accumulate data timestamp value\<close> stands for the call
  \<^verbatim>\<open>self._accumulate(new_timestamp, new_cpu_usage, ACCUMULATOR_KEY)\<close>: it returns the step
  data, if a step was completed, and the accumulator's new data. \<open>ping\<close> is
  \<^verbatim>\<open>self._monitor.ping\<close>, \<open>now\<close> is what \<^verbatim>\<open>self._create_time()\<close> returns, and \<open>stat_file\<close> is
  what reading the statistics file gives. An exception raised by \<^verbatim>\<open>_get_cpu_usage\<close> leaves
  \<^verbatim>\<open>run\<close> at once; it is returned beside the state reached.
\<close>

definition run ::
  "('a \<Rightarrow> int \<Rightarrow> real \<Rightarrow> 'p option \<times> 'a) \<Rightarrow> ('m \<Rightarrow> 'm) \<Rightarrow> real \<Rightarrow> string option \<Rightarrow>
   ('a, 'm, 'p) plugin \<Rightarrow> error option \<times> ('a, 'm, 'p) plugin"
where
  "run accumulate ping now stat_file self =
     (let self1 = self\<lparr>monitor := ping (monitor self)\<rparr>;
          new_timestamp = int_of_float now;
          (outcome, persisted) = get_cpu_usage stat_file (last_mesure self1);
          self2 = self1\<lparr>last_mesure := persisted\<rparr>
      in case outcome of
           Inl e \<Rightarrow> (Some e, self2)
         | Inr new_cpu_usage \<Rightarrow>
             (let (step_data, self3) =
                    (case new_cpu_usage of
                       None \<Rightarrow> (None, self2)
                     | Some usage \<Rightarrow>
                         (let (d, data) = accumulate (accumulator self2) new_timestamp usage
                          in (d, self2\<lparr>accumulator := data\<rparr>)))
              in case step_data of
                   None \<Rightarrow> (None, self3)
                 | Some point \<Rightarrow>
                     (None, self3\<lparr>cpu_usage_points := cpu_usage_points self3 @ [point]\<rparr>)))"

section \<open>Vocabulary of the statements\<close>

text \<open>
  The layout of the aggregate line of \<^verbatim>\<open>/proc/stat\<close> is described with \<open>join_on\<close>: the
  tokens written one after the other with one separator character between neighbours.
\<close>

fun join_on :: "char \<Rightarrow> string list \<Rightarrow> string" where
  "join_on sep [] = []"
| "join_on sep [t] = t"
| "join_on sep (t # ts) = t @ sep # join_on sep ts"

text \<open>
  A history of the plugin is a list of events: a tick of the reactor, with the time and
  the outcome of reading the statistics file at that tick, or a call of
  \<^verbatim>\<open>create_message\<close>. \<open>exec\<close> runs a history and returns the points handed out by the calls
  of \<^verbatim>\<open>create_message\<close>, in the order of the calls, and the final state.
\<close>

datatype event = Tick real "string option" | Drain

fun ticks :: "event list \<Rightarrow> nat" where
  "ticks [] = 0"
| "ticks (Tick now stat_file # es) = Suc (ticks es)"
| "ticks (Drain # es) = ticks es"

fun exec ::
  "('a \<Rightarrow> int \<Rightarrow> real \<Rightarrow> 'p option \<times> 'a) \<Rightarrow> ('m \<Rightarrow> 'm) \<Rightarrow> event list \<Rightarrow>
   ('a, 'm, 'p) plugin \<Rightarrow> 'p list \<times> ('a, 'm, 'p) plugin"
where
  "exec accumulate ping [] self = ([], self)"
| "exec accumulate ping (Tick now stat_file # es) self =
     exec accumulate ping es (snd (run accumulate ping now stat_file self))"
| "exec accumulate ping (Drain # es) self =
     (let (message, self') = create_message self;
          (delivered, self'') = exec accumulate ping es self'
      in (cpu_usages message @ delivered, self''))"

section \<open>Splitting the line and reading integers\<close>

lemma split_on_no_sep: "sep \<notin> set s \<Longrightarrow> split_on sep s = [s]"
  by (induction s) auto

lemma split_on_append:
  "sep \<notin> set a \<Longrightarrow> split_on sep (a @ sep # rest) = a # split_on sep rest"
  by (induction a) auto

lemma split_on_join_on:
  "ts \<noteq> [] \<Longrightarrow> \<forall>t\<in>set ts. sep \<notin> set t \<Longrightarrow> split_on sep (join_on sep ts) = ts"
proof (induction sep ts rule: join_on.induct)
  case (1 sep)
  then show ?case by simp
next
  case (2 sep t)
  then show ?case by (simp add: split_on_no_sep)
next
  case (3 sep t u us)
  then show ?case by (simp add: split_on_append)
qed

lemma set_join_on:
  "set (join_on sep ts) \<subseteq> insert sep (\<Union>t\<in>set ts. set t)"
  by (induction sep ts rule: join_on.induct) auto

lemma readline_append:
  "newline \<notin> set line \<Longrightarrow> readline (line @ newline # rest) = line @ [newline]"
  by (induction line) auto

lemma replace_newline_line:
  "newline \<notin> set line \<Longrightarrow> replace_newline (line @ [newline]) = line"
  by (auto simp: replace_newline_def filter_id_conv)

lemma is_digit_plain:
  assumes "is_digit c"
  shows "\<not> is_space c" "c \<noteq> CHR ''-''" "c \<noteq> CHR ''+''" "c \<noteq> CHR '' ''" "c \<noteq> newline"
    "0 \<le> digit_val c"
  using assms by (auto simp: is_digit_def is_space_def newline_def digit_val_def)

lemma strip_digits:
  assumes "t \<noteq> []" "list_all is_digit t"
  shows "strip t = t"
proof -
  from assms obtain c cs where t: "t = c # cs" by (cases t) auto
  with assms have "\<not> is_space c" by (simp add: is_digit_plain)
  then have 1: "dropWhile is_space t = t" by (simp add: t)
  from assms obtain d ds where r: "rev t = d # ds" by (cases "rev t") auto
  then have "d \<in> set t" by (metis list.set_intros(1) set_rev)
  with assms have "\<not> is_space d" by (simp add: list_all_iff is_digit_plain)
  then have "dropWhile is_space (rev t) = rev t" by (simp add: r)
  with 1 show ?thesis by (simp add: strip_def)
qed

lemma py_int_digits:
  assumes "t \<noteq> []" "list_all is_digit t"
  shows "py_int t = Inr (digits_val t)"
proof -
  from assms obtain c cs where t: "t = c # cs" by (cases t) auto
  with assms have "c \<noteq> CHR ''-''" "c \<noteq> CHR ''+''" by (simp_all add: is_digit_plain)
  then show ?thesis
    using assms t by (simp add: py_int_def strip_digits unsigned_int_def)
qed

lemma foldl_digits_nonneg:
  "0 \<le> acc \<Longrightarrow> list_all is_digit t \<Longrightarrow> 0 \<le> foldl (\<lambda>acc c. 10 * acc + digit_val c) acc t"
  by (induction t arbitrary: acc) (simp_all add: is_digit_plain)

lemma digits_val_nonneg: "list_all is_digit t \<Longrightarrow> 0 \<le> digits_val t"
  by (simp add: digits_val_def foldl_digits_nonneg)

section \<open>The loop over the fields\<close>

text \<open>
  The recursive equation of \<open>scan_fields\<close> is unfolded one iteration at a time by the
  three lemmas below: an iteration that goes on, one that detects a reboot, and the end of
  the range.
\<close>

declare scan_fields.simps [simp del]

lemma scan_fields_step:
  assumes "i < length fs" "i < length prev" "length ds = i"
    "py_int (fs ! i) = Inr x" "py_int (prev ! i) = Inr y" "y \<le> x"
  shows "scan_fields fs prev i ds u =
           scan_fields fs prev (Suc i) (ds @ [x - y]) (if i = 3 then u else u + (x - y))"
  using assms by (subst scan_fields.simps) (simp add: py_index_def nth_append)

lemma scan_fields_stop:
  assumes "i < length fs" "i < length prev"
    "py_int (fs ! i) = Inr x" "py_int (prev ! i) = Inr y" "x < y"
  shows "scan_fields fs prev i ds u = Inr (True, ds, u)"
  using assms by (subst scan_fields.simps) (simp add: py_index_def)

lemma scan_fields_end:
  assumes "length fs \<le> i"
  shows "scan_fields fs prev i ds u = Inr (False, ds, u)"
  using assms by (subst scan_fields.simps) simp

lemma scan_fields_complete:
  assumes "i \<le> length fs" "length fs \<le> length prev" "length ds = i"
    "\<forall>j. i \<le> j \<and> j < length fs \<longrightarrow>
       py_int (fs ! j) = Inr (a j) \<and> py_int (prev ! j) = Inr (b j) \<and> b j \<le> a j"
  shows "scan_fields fs prev i ds u =
           Inr (False, ds @ map (\<lambda>j. a j - b j) [i..<length fs],
                u + sum_list (map (\<lambda>j. if j = 3 then 0 else a j - b j) [i..<length fs]))"
  using assms
proof (induction "length fs - i" arbitrary: i ds u)
  case 0
  then show ?case by (simp add: scan_fields_end)
next
  case (Suc n)
  then have lt: "i < length fs" by simp
  have step: "scan_fields fs prev i ds u =
      scan_fields fs prev (Suc i) (ds @ [a i - b i]) (if i = 3 then u else u + (a i - b i))"
    using lt Suc.prems by (intro scan_fields_step) auto
  have "scan_fields fs prev (Suc i) (ds @ [a i - b i]) (if i = 3 then u else u + (a i - b i)) =
      Inr (False, (ds @ [a i - b i]) @ map (\<lambda>j. a j - b j) [Suc i..<length fs],
           (if i = 3 then u else u + (a i - b i)) +
             sum_list (map (\<lambda>j. if j = 3 then 0 else a j - b j) [Suc i..<length fs]))"
    using Suc.hyps(2) lt Suc.prems by (intro Suc.hyps(1)) auto
  with step show ?case using lt by (simp add: upt_conv_Cons)
qed

lemma scan_fields_reboot:
  assumes "i \<le> k" "k < length fs" "k < length prev" "length ds = i"
    "\<forall>j. i \<le> j \<and> j \<le> k \<longrightarrow> py_int (fs ! j) = Inr (a j) \<and> py_int (prev ! j) = Inr (b j)"
    "\<forall>j. i \<le> j \<and> j < k \<longrightarrow> b j \<le> a j" "a k < b k"
  shows "scan_fields fs prev i ds u =
           Inr (True, ds @ map (\<lambda>j. a j - b j) [i..<k],
                u + sum_list (map (\<lambda>j. if j = 3 then 0 else a j - b j) [i..<k]))"
  using assms
proof (induction "k - i" arbitrary: i ds u)
  case 0
  then have "i = k" by simp
  with 0 show ?case by (simp add: scan_fields_stop)
next
  case (Suc n)
  then have lt: "i < k" by simp
  have step: "scan_fields fs prev i ds u =
      scan_fields fs prev (Suc i) (ds @ [a i - b i]) (if i = 3 then u else u + (a i - b i))"
    using lt Suc.prems by (intro scan_fields_step) auto
  have "scan_fields fs prev (Suc i) (ds @ [a i - b i]) (if i = 3 then u else u + (a i - b i)) =
      Inr (True, (ds @ [a i - b i]) @ map (\<lambda>j. a j - b j) [Suc i..<k],
           (if i = 3 then u else u + (a i - b i)) +
             sum_list (map (\<lambda>j. if j = 3 then 0 else a j - b j) [Suc i..<k]))"
    using Suc.hyps(2) lt Suc.prems by (intro Suc.hyps(1)) auto
  with step show ?case using lt by (simp add: upt_conv_Cons)
qed

lemma sum_list_skip_idle:
  "sum_list (map (\<lambda>j. if j = 3 then 0 else f j) [0..<n]) = (\<Sum>j\<in>{0..<n} - {3::nat}. (f j :: int))"
proof -
  have "sum_list (map (\<lambda>j. if j = 3 then 0 else f j) [0..<n]) = (\<Sum>j\<in>{0..<n}. if j = 3 then 0 else f j)"
    by (simp add: interv_sum_list_conv_sum_set_nat)
  also have "\<dots> = (\<Sum>j\<in>{0..<n} - {3}. f j)"
    by (rule sum.mono_neutral_cong_right) auto
  finally show ?thesis .
qed

section \<open>The result of the computation\<close>

lemma compute_result_complete:
  assumes len: "4 \<le> length fs" "length fs \<le> length prev"
    and ok: "\<forall>j<length fs. py_int (fs ! j) = Inr (a j) \<and> py_int (prev ! j) = Inr (b j) \<and> b j \<le> a j"
  shows "compute_result fs (Some prev) =
           (let used = (\<Sum>j\<in>{0..<length fs} - {3}. a j - b j); idle = a 3 - b 3
            in if idle + used = 0 then Inr None
               else Inr (Some (real_of_int used / real_of_int (idle + used))))"
proof -
  have scan: "scan_fields fs prev 0 [] 0 =
      Inr (False, map (\<lambda>j. a j - b j) [0..<length fs],
           (\<Sum>j\<in>{0..<length fs} - {3}. a j - b j))"
    using scan_fields_complete [of 0 fs prev "[]" a b 0] len ok
    by (simp add: sum_list_skip_idle)
  have idle: "py_index (map (\<lambda>j. a j - b j) [0..<length fs]) 3 = Inr (a 3 - b 3)"
    using len by (simp add: py_index_def)
  show ?thesis
    by (simp add: compute_result_def scan idle Let_def)
qed

lemma compute_result_reboot:
  assumes "k < length fs" "k < length prev"
    and "\<forall>j\<le>k. py_int (fs ! j) = Inr (a j) \<and> py_int (prev ! j) = Inr (b j)"
    and "\<forall>j<k. b j \<le> a j" and "a k < b k"
  shows "compute_result fs (Some prev) = Inr None"
proof -
  have "scan_fields fs prev 0 [] 0 =
      Inr (True, [] @ map (\<lambda>j. a j - b j) [0..<k],
           0 + sum_list (map (\<lambda>j. if j = 3 then 0 else a j - b j) [0..<k]))"
    using assms by (intro scan_fields_reboot) auto
  then show ?thesis
    by (simp add: compute_result_def)
qed


lemma map_py_int_nth:
  assumes "map py_int fs = map Inr ns" "j < length ns"
  shows "py_int (fs ! j) = Inr (ns ! j)"
proof -
  have len: "length fs = length ns" using assms(1) by (metis length_map)
  have "py_int (fs ! j) = map py_int fs ! j" using len assms(2) by simp
  also have "\<dots> = map Inr ns ! j" by (simp only: assms(1))
  also have "\<dots> = Inr (ns ! j)" using assms(2) by simp
  finally show ?thesis .
qed



section \<open>The list of points\<close>

lemma run_appends:
  "\<exists>ps. length ps \<le> 1 \<and>
     cpu_usage_points (snd (run accumulate ping now stat_file self)) = cpu_usage_points self @ ps"
proof -
  have "cpu_usage_points (snd (run accumulate ping now stat_file self)) = cpu_usage_points self \<or>
        (\<exists>p. cpu_usage_points (snd (run accumulate ping now stat_file self)) =
           cpu_usage_points self @ [p])"
    by (auto simp: run_def Let_def split: prod.splits sum.splits option.splits)
  then show ?thesis
  proof
    assume "cpu_usage_points (snd (run accumulate ping now stat_file self)) = cpu_usage_points self"
    then show ?thesis by (intro exI [of _ "[]"]) simp
  next
    assume "\<exists>p. cpu_usage_points (snd (run accumulate ping now stat_file self)) =
           cpu_usage_points self @ [p]"
    then obtain p where "cpu_usage_points (snd (run accumulate ping now stat_file self)) =
           cpu_usage_points self @ [p]" ..
    then show ?thesis by (intro exI [of _ "[p]"]) simp
  qed
qed

lemma exec_delivers:
  "\<exists>new. length new \<le> ticks es \<and>
     fst (exec accumulate ping es self) @ cpu_usage_points (snd (exec accumulate ping es self)) =
       cpu_usage_points self @ new"
proof (induction es arbitrary: self)
  case Nil
  show ?case by simp
next
  case (Cons e es)
  show ?case
  proof (cases e)
    case (Tick now stat_file)
    let ?s = "snd (run accumulate ping now stat_file self)"
    obtain ps where ps: "length ps \<le> 1" "cpu_usage_points ?s = cpu_usage_points self @ ps"
      using run_appends [of accumulate ping now stat_file self] by blast
    obtain new where new: "length new \<le> ticks es"
      "fst (exec accumulate ping es ?s) @ cpu_usage_points (snd (exec accumulate ping es ?s)) =
         cpu_usage_points ?s @ new"
      using Cons.IH [of ?s] by blast
    show ?thesis
      using ps new Tick by (intro exI [of _ "ps @ new"]) simp
  next
    case Drain
    let ?s = "snd (create_message self)"
    obtain new where new: "length new \<le> ticks es"
      "fst (exec accumulate ping es ?s) @ cpu_usage_points (snd (exec accumulate ping es ?s)) =
         cpu_usage_points ?s @ new"
      using Cons.IH [of ?s] by blast
    show ?thesis
      using new Drain
      by (intro exI [of _ new]) (simp add: create_message_def Let_def case_prod_beta)
  qed
qed

section \<open>The claims\<close>





text \<open>
  Claim C3. When some counter has decreased, \<^verbatim>\<open>_get_cpu_usage\<close> returns \<open>None\<close> and stores the new
  fields, and the loop stops at the first negative delta: with \<open>k\<close> the first index whose
  delta is negative, only the fields up to \<open>k\<close> have to be integers, the result does not
  depend on the fields after \<open>k\<close> (which \<^verbatim>\<open>int\<close> may reject), and the loop ends with the
  deltas of the fields before \<open>k\<close> alone.
\<close>

theorem reboot_absent:
  fixes new old :: "nat \<Rightarrow> int"
  assumes "stat_fields (readline content) = new_fields"
    and "k < length new_fields" and "k < length previous_fields"
    and "\<forall>i\<le>k. py_int (new_fields ! i) = Inr (new i) \<and> py_int (previous_fields ! i) = Inr (old i)"
    and "\<forall>i<k. 0 \<le> new i - old i"
    and "new k - old k < 0"
  shows "get_cpu_usage (Some content) (Some previous_fields) = (Inr None, Some new_fields) \<and>
         (\<exists>used. scan_fields new_fields previous_fields 0 [] 0 =
            Inr (True, map (\<lambda>i. new i - old i) [0..<k], used))"
proof -
  have nonneg: "\<forall>i<k. old i \<le> new i" using assms(5) by simp
  have neg: "new k < old k" using assms(6) by simp
  have "compute_result new_fields (Some previous_fields) = Inr None"
    using assms(2-4) nonneg neg by (rule compute_result_reboot)
  then have "get_cpu_usage (Some content) (Some previous_fields) = (Inr None, Some new_fields)"
    using assms(1) by (simp add: get_cpu_usage_def sanity_guard_def)
  moreover have "scan_fields new_fields previous_fields 0 [] 0 =
      Inr (True, [] @ map (\<lambda>i. new i - old i) [0..<k],
           0 + sum_list (map (\<lambda>i. if i = 3 then 0 else new i - old i) [0..<k]))"
    using assms(2-4) nonneg neg by (intro scan_fields_reboot) auto
  ultimately show ?thesis by simp
qed

theorem reboot_absent_witness:
  "get_cpu_usage (Some (''cpu  4755 152 7 16270 525 31 47 12 8 x'' @ [newline]))
      (Some [''4705'', ''150'', ''1120'', ''16250'', ''520'', ''30'', ''45'', ''12'', ''7'', ''3'']) =
     (Inr None, Some [''4755'', ''152'', ''7'', ''16270'', ''525'', ''31'', ''47'', ''12'', ''8'', ''x''])"
proof -
  have 1: "stat_fields (readline (''cpu  4755 152 7 16270 525 31 47 12 8 x'' @ [newline])) =
             [''4755'', ''152'', ''7'', ''16270'', ''525'', ''31'', ''47'', ''12'', ''8'', ''x'']"
    by code_simp
  have 2: "\<forall>i\<le>2. py_int ([''4755'', ''152'', ''7'', ''16270'', ''525'', ''31'', ''47'', ''12'', ''8'', ''x''] ! i) = Inr ([4755, 152, 7] ! i) \<and>
             py_int ([''4705'', ''150'', ''1120'', ''16250'', ''520'', ''30'', ''45'', ''12'', ''7'', ''3''] ! i) =
               Inr ([4705, 150, 1120] ! i)"
  proof (intro allI impI)
    fix i :: nat assume "i \<le> 2"
    then consider "i = 0" | "i = 1" | "i = 2" by linarith
    then show "py_int ([''4755'', ''152'', ''7'', ''16270'', ''525'', ''31'', ''47'', ''12'', ''8'', ''x''] ! i) = Inr ([4755, 152, 7] ! i) \<and>
             py_int ([''4705'', ''150'', ''1120'', ''16250'', ''520'', ''30'', ''45'', ''12'', ''7'', ''3''] ! i) =
               Inr ([4705, 150, 1120] ! i)"
      by cases (simp_all, code_simp+)
  qed
  have 3: "\<forall>i<2. (0::int) \<le> [4755, 152, 7] ! i - [4705, 150, 1120] ! i"
    by (simp add: eval_nat_numeral All_less_Suc)
  show ?thesis
    using reboot_absent [OF 1 _ _ 2 3] by simp
qed

text \<open>
  Claim C4, as amended. When the first line of the file is a label without a space,
  two spaces, and 10 runs of decimal digits with one space between neighbours, the fields
  read are these 10 runs of digits, in order, and \<^verbatim>\<open>int\<close> turns each into a non-negative
  integer. The two tokens dropped are the label and the empty token between the two spaces.
\<close>

theorem stat_fields_of_cpu_line:
  assumes "CHR '' '' \<notin> set label" and "newline \<notin> set label"
    and "length tokens = 10"
    and "\<forall>t\<in>set tokens. t \<noteq> [] \<and> list_all is_digit t"
  shows "stat_fields (readline (label @ ''  '' @ join_on CHR '' '' tokens @ newline # rest)) = tokens \<and>
         split_on CHR '' '' (label @ ''  '' @ join_on CHR '' '' tokens) = label # [] # tokens \<and>
         (\<forall>t\<in>set tokens. py_int t = Inr (digits_val t) \<and> 0 \<le> digits_val t)"
proof -
  let ?line = "label @ ''  '' @ join_on CHR '' '' tokens"
  have tok: "\<forall>t\<in>set tokens. CHR '' '' \<notin> set t \<and> newline \<notin> set t"
    using assms(4) is_digit_plain(4,5) by (auto simp: list_all_iff)
  have ne: "tokens \<noteq> []" using assms(3) by auto
  have "newline \<notin> set (join_on CHR '' '' tokens)"
    using set_join_on [of "CHR '' ''" tokens] tok by (auto simp: newline_def)
  then have nl: "newline \<notin> set ?line"
    using assms(2) by (simp add: newline_def)
  have "readline (?line @ newline # rest) = ?line @ [newline]"
    using nl by (rule readline_append)
  moreover have "replace_newline (?line @ [newline]) = ?line"
    using nl by (rule replace_newline_line)
  ultimately have 1: "replace_newline (readline (?line @ newline # rest)) = ?line"
    by (simp only:)
  have "split_on CHR '' '' ?line = label # split_on CHR '' '' (CHR '' '' # join_on CHR '' '' tokens)"
    using assms(1) by (simp add: split_on_append)
  also have "\<dots> = label # [] # split_on CHR '' '' (join_on CHR '' '' tokens)"
    by simp
  also have "\<dots> = label # [] # tokens"
    using ne tok by (simp add: split_on_join_on)
  finally have 2: "split_on CHR '' '' ?line = label # [] # tokens" .
  have 3: "stat_fields (readline (?line @ newline # rest)) = tokens"
    unfolding stat_fields_def 1 2 by simp
  have 4: "\<forall>t\<in>set tokens. py_int t = Inr (digits_val t) \<and> 0 \<le> digits_val t"
    using assms(4) by (simp add: py_int_digits digits_val_nonneg)
  from 2 3 4 show ?thesis by simp
qed

theorem stat_fields_of_cpu_line_witness:
  "stat_fields (readline (''cpu'' @ ''  '' @
      join_on CHR '' '' [''4755'', ''152'', ''1130'', ''16270'', ''525'', ''31'', ''47'', ''12'', ''8'', ''4''] @
      newline # ''cpu0 1 2'')) =
     [''4755'', ''152'', ''1130'', ''16270'', ''525'', ''31'', ''47'', ''12'', ''8'', ''4'']"
proof -
  have 1: "CHR '' '' \<notin> set ''cpu''" "newline \<notin> set ''cpu''"
    by (simp_all add: newline_def)
  have 2: "\<forall>t\<in>set [''4755'', ''152'', ''1130'', ''16270'', ''525'', ''31'', ''47'', ''12'', ''8'', ''4''].
             t \<noteq> [] \<and> list_all is_digit t"
    by (simp add: is_digit_def)
  show ?thesis
    using stat_fields_of_cpu_line [OF 1 _ 2, of "''cpu0 1 2''"] by simp
qed

text \<open>
  The claim as stated, for any whitespace between the tokens, fails: with one space after
  the label there is no empty token, the first counter is dropped with the label, and 9
  fields are left.
\<close>

theorem single_space_line_loses_field:
  "stat_fields (readline (''cpu 4755 152 1130 16270 525 31 47 12 8 4'' @ [newline])) =
     [''152'', ''1130'', ''16270'', ''525'', ''31'', ''47'', ''12'', ''8'', ''4'']"
  by code_simp




text \<open>
  Claim C6. When the statistics file cannot be opened or read, \<^verbatim>\<open>_get_cpu_usage\<close> returns \<open>None\<close>
  and leaves the stored measure as it was, and the tick changes nothing but the coverage
  monitor, which \<^verbatim>\<open>run\<close> pings before it reads the file: the stored measure, the data of the
  accumulator and the list of points are the same after \<^verbatim>\<open>run\<close>, whatever the accumulator
  would do.
\<close>

theorem read_failure_skips_tick:
  "get_cpu_usage None persisted = (Inr None, persisted) \<and>
   run accumulate ping now None self = (None, self\<lparr>monitor := ping (monitor self)\<rparr>) \<and>
   last_mesure (snd (run accumulate ping now None self)) = last_mesure self \<and>
   accumulator (snd (run accumulate ping now None self)) = accumulator self \<and>
   cpu_usage_points (snd (run accumulate ping now None self)) = cpu_usage_points self"
  by (simp add: get_cpu_usage_def run_def)

text \<open>
  Claim C7. When no counter has decreased and the divisor \<open>used + idle\<close> is 0 (two identical
  samples, for example), \<^verbatim>\<open>_get_cpu_usage\<close> returns \<open>None\<close> and raises nothing.
\<close>

theorem zero_divisor_absent:
  fixes new old :: "int list"
  assumes "stat_fields (readline content) = new_fields"
    and "map py_int new_fields = map Inr new" and "length new = 10"
    and "map py_int previous_fields = map Inr old" and "length old = 10"
    and "\<forall>i<10. old ! i \<le> new ! i"
    and "used = (\<Sum>i\<in>{0..<10} - {3}. new ! i - old ! i)"
    and "idle = new ! 3 - old ! 3"
    and "used + idle = 0"
  shows "get_cpu_usage (Some content) (Some previous_fields) = (Inr None, Some new_fields)"
proof -
  have len: "length new_fields = 10" "length previous_fields = 10"
    using assms(2-5) by (metis length_map)+
  have ok: "\<forall>j<length new_fields. py_int (new_fields ! j) = Inr (new ! j) \<and>
              py_int (previous_fields ! j) = Inr (old ! j) \<and> old ! j \<le> new ! j"
    using assms(2-6) len by (simp add: map_py_int_nth)
  have "compute_result new_fields (Some previous_fields) = Inr None"
    using compute_result_complete [of new_fields previous_fields "\<lambda>j. new ! j" "\<lambda>j. old ! j"]
      ok len assms(7-9)
    by (simp add: Let_def add.commute)
  then show ?thesis
    using assms(1) by (simp add: get_cpu_usage_def sanity_guard_def)
qed

theorem zero_divisor_absent_witness:
  "get_cpu_usage (Some (''cpu  4755 152 1130 16270 525 31 47 12 8 4'' @ [newline]))
      (Some [''4755'', ''152'', ''1130'', ''16270'', ''525'', ''31'', ''47'', ''12'', ''8'', ''4'']) =
     (Inr None, Some [''4755'', ''152'', ''1130'', ''16270'', ''525'', ''31'', ''47'', ''12'', ''8'', ''4''])"
proof -
  have 1: "stat_fields (readline (''cpu  4755 152 1130 16270 525 31 47 12 8 4'' @ [newline])) =
             [''4755'', ''152'', ''1130'', ''16270'', ''525'', ''31'', ''47'', ''12'', ''8'', ''4'']"
    by code_simp
  have 2: "map py_int [''4755'', ''152'', ''1130'', ''16270'', ''525'', ''31'', ''47'', ''12'', ''8'', ''4''] =
             map Inr [4755, 152, 1130, 16270, 525, 31, 47, 12, 8, 4]"
    by code_simp
  have 4: "\<forall>i<10. [4755, 152, 1130, 16270, 525, 31, 47, 12, 8, 4 :: int] ! i \<le> [4755, 152, 1130, 16270, 525, 31, 47, 12, 8, 4] ! i"
    by simp
  have 5: "(0::int) = (\<Sum>i\<in>{0..<10} - {3}. [4755, 152, 1130, 16270, 525, 31, 47, 12, 8, 4] ! i - [4755, 152, 1130, 16270, 525, 31, 47, 12, 8, 4] ! i)"
    by simp
  have 6: "(0::int) = [4755, 152, 1130, 16270, 525, 31, 47, 12, 8, 4] ! 3 - [4755, 152, 1130, 16270, 525, 31, 47, 12, 8, 4] ! 3"
    by simp
  show ?thesis
    using zero_divisor_absent [OF 1 2 _ 2 _ 4 5 6] by simp
qed

text \<open>
  Claim C8. On the first invocation, when nothing is stored under the key of the last
  measure, \<^verbatim>\<open>_get_cpu_usage\<close> returns \<open>None\<close> and stores the fields just read.
\<close>

theorem first_run_absent:
  "get_cpu_usage (Some content) None = (Inr None, Some (stat_fields (readline content)))"
  by (simp add: get_cpu_usage_def compute_result_def sanity_guard_def)

text \<open>
  Claim C9. \<^verbatim>\<open>create_message\<close> returns the points that were waiting and leaves the list
  empty, so a second call right after the first returns no point.
\<close>

theorem create_message_drains:
  "cpu_usages (fst (create_message self)) = cpu_usage_points self \<and>
   cpu_usage_points (snd (create_message self)) = [] \<and>
   cpu_usages (fst (create_message (snd (create_message self)))) = []"
  by (simp add: create_message_def)

text \<open>
  Claim C10. A tick leaves the list of points as it was or appends one point at its end;
  \<^verbatim>\<open>create_message\<close> hands out the whole list and empties it; hence, over any history of ticks
  and calls of \<^verbatim>\<open>create_message\<close>, the points handed out followed by the points still waiting
  are the points that were waiting at the start followed by the new points, at most one
  for each tick: no point is lost, repeated or moved.
\<close>

theorem points_delivered_once_in_order:
  "(\<exists>ps. length ps \<le> 1 \<and>
      cpu_usage_points (snd (run accumulate ping now stat_file self)) =
        cpu_usage_points self @ ps) \<and>
   create_message self =
     (\<lparr>msg_type = ''cpu-usage'', cpu_usages = cpu_usage_points self\<rparr>,
      self\<lparr>cpu_usage_points := []\<rparr>) \<and>
   (\<exists>new. length new \<le> ticks es \<and>
      fst (exec accumulate ping es self) @ cpu_usage_points (snd (exec accumulate ping es self)) =
        cpu_usage_points self @ new)"
  using run_appends [of accumulate ping now stat_file self] exec_delivers [of es accumulate ping self]
  by (simp add: create_message_def)

end
